theory Spec2Isabelle
  imports Main "HOL-Library.Word" "HOL-Library.Signed_Division"
begin

section \<open>Data model of the scheduler plugin\<close>

text \<open>
  The plugin of \<^verbatim>\<open>pkg/plugins/scheduler.go\<close> implements three extension points of the
  Kubernetes scheduling framework (PreFilter, Score, NormalizeScore) and a constructor.
  Go's \<^verbatim>\<open>int64\<close> is a 64-bit word read in two's complement; \<^verbatim>\<open>int\<close> is taken to be
  64 bits wide as well (a 64-bit platform).
\<close>

type_synonym int64 = "64 word"

text \<open>The status codes of \<^verbatim>\<open>framework.Code\<close> that the plugin produces.\<close>

datatype Code = Success | Error | Unschedulable

text \<open>
  \<^verbatim>\<open>framework.NewStatus(code, reasons...)\<close> stores the code and the reasons; the message of
  a status is its reasons joined by a comma and a space. The plugin gives one reason at
  every call.
\<close>

record Status =
  code :: Code
  reasons :: "string list"

definition NewStatus :: "Code \<Rightarrow> string \<Rightarrow> Status" where
  "NewStatus c reason = \<lparr>code = c, reasons = [reason]\<rparr>"

definition Message :: "Status \<Rightarrow> string" where
  "Message s = (case reasons s of [] \<Rightarrow> [] | r # rs \<Rightarrow> foldl (\<lambda>a b. a @ '', '' @ b) r rs)"

text \<open>A pod: the fields of \<^verbatim>\<open>v1.Pod\<close> that the plugin reads.\<close>

record Pod =
  pod_Name :: string
  pod_Namespace :: string
  pod_Labels :: "string \<rightharpoonup> string"

text \<open>\<^verbatim>\<open>framework.NodeScore\<close>: a node name and its score.\<close>

record NodeScore =
  ns_Name :: string
  ns_Score :: int64

text \<open>
  \<^verbatim>\<open>framework.PreFilterResult\<close> restricts the candidate nodes to a set of names; a nil
  result (\<open>None\<close>) leaves every node a candidate.
\<close>

type_synonym PreFilterResult = "string set"

text \<open>
  The two lookups the plugin makes through \<^verbatim>\<open>framework.Handle\<close>, each returning the
  error text (\<open>Inl\<close>) or the value:
  \<^item> \<open>ListPods namespace selector\<close> is
    \<^verbatim>\<open>SharedInformerFactory().Core().V1().Pods().Lister().Pods(namespace).List(selector)\<close>,
    the selector being the label set it must match;
  \<^item> \<open>NodeMemory nodeName\<close> is \<^verbatim>\<open>SnapshotSharedLister().NodeInfos().Get(nodeName)\<close>
    followed by \<^verbatim>\<open>Node().Status.Allocatable.Memory().Value()\<close>.
\<close>

record Handle =
  ListPods :: "string \<Rightarrow> (string \<times> string) list \<Rightarrow> string + Pod list"
  NodeMemory :: "string \<Rightarrow> string + int64"

text \<open>The lookups a call has made, in order: the effect of a call on the cluster reader.\<close>

datatype ReaderCall = PodsList string "(string \<times> string) list" | NodeInfosGet string

record CustomSchedulerArgs =
  Mode :: string

record CustomScheduler =
  handle :: Handle
  scoreMode :: string

definition groupNameLabel :: string where
  "groupNameLabel = ''podGroup''"

definition minAvailableLabel :: string where
  "minAvailableLabel = ''minAvailable''"

definition leastMode :: string where
  "leastMode = ''Least''"

definition mostMode :: string where
  "mostMode = ''Most''"

text \<open>\<^verbatim>\<open>framework.MaxNodeScore\<close>, the largest score a plugin may return.\<close>

definition MaxNodeScore :: int64 where
  "MaxNodeScore = 100"

section \<open>Go's strconv.Atoi\<close>

text \<open>
  \<^verbatim>\<open>strconv.Atoi\<close>, \<^verbatim>\<open>ParseInt\<close> and \<^verbatim>\<open>ParseUint\<close> of Go's library, for base 10 and a 64-bit
  \<^verbatim>\<open>int\<close>. A string is a list of bytes. The error is a syntax error or a range error; the
  value returned with a range error is the bound of the range.
\<close>

datatype NumError = ErrSyntax | ErrRange

text \<open>The digits \<open>0\<close> to \<open>9\<close> are the bytes 48 to 57.\<close>

definition isDigit :: "char \<Rightarrow> bool" where
  "isDigit c = ((48::nat) \<le> of_char c \<and> of_char c \<le> (57::nat))"

definition digitVal :: "char \<Rightarrow> nat" where
  "digitVal c = of_char c - 48"

definition maxUint64 :: nat where
  "maxUint64 = 2 ^ 64 - 1"

text \<open>
  The loop of \<^verbatim>\<open>ParseUint(s, 10, 0)\<close> over the bytes of \<open>s\<close>, with \<open>n\<close> the \<^verbatim>\<open>uint64\<close>
  read so far. A byte that is not a digit ends the loop with a syntax error and the value
  0. A digit that would take \<open>n\<close> beyond \<^verbatim>\<open>uint64\<close> ends it at once with a range error
  and the greatest value, and the bytes after that digit are not read. The
  multiplication and the addition are those of \<^verbatim>\<open>uint64\<close>, modulo \<open>2 ^ 64\<close>.
\<close>

fun ParseUint_loop :: "nat \<Rightarrow> string \<Rightarrow> nat \<times> NumError option" where
  "ParseUint_loop n [] = (n, None)"
| "ParseUint_loop n (c # cs) =
     (if \<not> isDigit c then (0, Some ErrSyntax)
      else if maxUint64 div 10 + 1 \<le> n then (maxUint64, Some ErrRange)
      else (let n10 = (n * 10) mod 2 ^ 64;
                n1 = (n10 + digitVal c) mod 2 ^ 64
            in if n1 < n10 \<or> maxUint64 < n1 then (maxUint64, Some ErrRange)
               else ParseUint_loop n1 cs))"

definition ParseUint :: "string \<Rightarrow> nat \<times> NumError option" where
  "ParseUint s = (if s = [] then (0, Some ErrSyntax) else ParseUint_loop 0 s)"

text \<open>The conversion to \<^verbatim>\<open>int64\<close> and its negation keep the low 64 bits.\<close>

definition int64_of :: "int \<Rightarrow> int" where
  "int64_of k = (k + 2 ^ 63) mod 2 ^ 64 - 2 ^ 63"

text \<open>
  \<^verbatim>\<open>ParseInt(s, 10, 0)\<close> takes off one leading sign, calls \<^verbatim>\<open>ParseUint\<close>, returns 0 on
  an error that is not a range error, and otherwise checks the value against the range
  of \<^verbatim>\<open>int64\<close>.
\<close>

definition ParseInt :: "string \<Rightarrow> int \<times> NumError option" where
  "ParseInt s =
     (case s of
        [] \<Rightarrow> (0, Some ErrSyntax)
      | c # cs \<Rightarrow>
          (let neg = (c = CHR ''-'');
               body = (if c = CHR ''+'' then cs else if c = CHR ''-'' then cs else s);
               (un, err) = ParseUint body
           in if err \<noteq> None \<and> err \<noteq> Some ErrRange then (0, err)
              else if \<not> neg \<and> 2 ^ 63 \<le> un then (2 ^ 63 - 1, Some ErrRange)
              else if neg \<and> 2 ^ 63 < un then (- (2 ^ 63), Some ErrRange)
              else (let n = int64_of (int un)
                    in (if neg then int64_of (- n) else n, None))))"

text \<open>
  \<^verbatim>\<open>Atoi\<close> has a fast path for a string of 1 to 18 bytes: one leading sign is taken
  off, each byte has \<open>'0'\<close> subtracted as a byte (modulo 256) and is a syntax error when
  the difference is above 9. Up to 18 digits cannot leave the range of \<^verbatim>\<open>int\<close>. Every
  other string goes to \<^verbatim>\<open>ParseInt\<close>.
\<close>

definition fastDigit :: "char \<Rightarrow> nat" where
  "fastDigit ch = (of_char ch + 256 - 48) mod 256"

fun Atoi_fast_loop :: "int \<Rightarrow> string \<Rightarrow> int option" where
  "Atoi_fast_loop n [] = Some n"
| "Atoi_fast_loop n (ch # cs) =
     (if 9 < fastDigit ch then None
      else Atoi_fast_loop (n * 10 + int (fastDigit ch)) cs)"

definition Atoi :: "string \<Rightarrow> int \<times> NumError option" where
  "Atoi s =
     (case s of
        [] \<Rightarrow> ParseInt s
      | c # cs \<Rightarrow>
          if length s < 19
          then (let body = (if c = CHR ''-'' \<or> c = CHR ''+'' then cs else s)
                in if length body < 1 then (0, Some ErrSyntax)
                   else (case Atoi_fast_loop 0 body of
                           None \<Rightarrow> (0, Some ErrSyntax)
                         | Some n \<Rightarrow> (if c = CHR ''-'' then - n else n, None)))
          else ParseInt s)"

text \<open>
  A well-formed decimal integer, as a grammar: an optional \<open>+\<close> or \<open>-\<close>, then one
  or more of the digits 0 to 9 and nothing else.
\<close>

fun allDigits :: "string \<Rightarrow> bool" where
  "allDigits [] = True"
| "allDigits (c # cs) = (isDigit c \<and> allDigits cs)"

fun wellFormedDecimal :: "string \<Rightarrow> bool" where
  "wellFormedDecimal [] = False"
| "wellFormedDecimal (c # cs) =
     (if c = CHR ''+'' \<or> c = CHR ''-'' then cs \<noteq> [] \<and> allDigits cs
      else allDigits (c # cs))"

text \<open>
  The number that the leading digits of a string denote: the digits after an optional
  sign, up to the first byte that is not a digit.
\<close>

fun digitsValue :: "nat \<Rightarrow> string \<Rightarrow> nat" where
  "digitsValue n [] = n"
| "digitsValue n (c # cs) = digitsValue (n * 10 + digitVal c) cs"

definition leadingDigitsValue :: "string \<Rightarrow> nat" where
  "leadingDigitsValue s =
     digitsValue 0
       (takeWhile isDigit
          (case s of [] \<Rightarrow> [] | c # cs \<Rightarrow> if c = CHR ''+'' \<or> c = CHR ''-'' then cs else s))"

section \<open>The plugin\<close>

subsection \<open>New\<close>

text \<open>
  The configuration object is nil (\<open>None\<close>), a \<^verbatim>\<open>*runtime.Unknown\<close> carrying raw
  bytes, or some other object, on which the type assertion of \<open>New\<close> panics.
  \<^verbatim>\<open>json.Unmarshal\<close> belongs to Go's library: it is the parameter \<open>unmarshal\<close>, which
  takes the raw bytes and the structure to fill and returns the structure as the call
  leaves it together with the error, if any. \<open>New\<close> prints that error and goes on.
\<close>

datatype Object = Unknown string | OtherObject

datatype NewError = ConfigError string | TypeAssertionPanic

definition New ::
  "(string \<Rightarrow> CustomSchedulerArgs \<Rightarrow> CustomSchedulerArgs \<times> string option) \<Rightarrow>
   Object option \<Rightarrow> Handle \<Rightarrow> NewError + CustomScheduler" where
  "New unmarshal obj h =
     (case obj of
        None \<Rightarrow> Inr \<lparr>handle = h, scoreMode = leastMode\<rparr>
      | Some OtherObject \<Rightarrow> Inl TypeAssertionPanic
      | Some (Unknown raw) \<Rightarrow>
          (let (csArgs, err) = unmarshal raw \<lparr>Mode = ''''\<rparr>;
               mode = Mode csArgs
           in if mode \<noteq> leastMode \<and> mode \<noteq> mostMode
              then Inl (ConfigError (''invalid mode, got '' @ mode))
              else Inr \<lparr>handle = h, scoreMode = mode\<rparr>))"

subsection \<open>PreFilter\<close>

text \<open>
  Reading a missing key of a Go map gives the empty string. The result is the lookups
  made, the \<^verbatim>\<open>*framework.PreFilterResult\<close> and the status.
\<close>

definition PreFilter ::
  "CustomScheduler \<Rightarrow> Pod \<Rightarrow> ReaderCall list \<times> PreFilterResult option \<times> Status" where
  "PreFilter cs pod =
     (let minAvailable = (case pod_Labels pod minAvailableLabel of None \<Rightarrow> [] | Some v \<Rightarrow> v)
      in case pod_Labels pod groupNameLabel of
           None \<Rightarrow> ([], None, NewStatus Success ''no group label'')
         | Some label \<Rightarrow>
             (let selector = [(groupNameLabel, label)];
                  called = [PodsList (pod_Namespace pod) selector]
              in case ListPods (handle cs) (pod_Namespace pod) selector of
                   Inl err \<Rightarrow> (called, None, NewStatus Error err)
                 | Inr pods \<Rightarrow>
                     (let minAvailableInt = fst (Atoi minAvailable)
                      in if int (length pods) < minAvailableInt
                         then (called, None,
                               NewStatus Unschedulable ''not enough pods in the group'')
                         else (called, None, NewStatus Success ''''))))"

subsection \<open>Score\<close>

text \<open>The result is the lookups made, the raw score and the status (nil on success).\<close>

definition Score ::
  "CustomScheduler \<Rightarrow> Pod \<Rightarrow> string \<Rightarrow> ReaderCall list \<times> int64 \<times> Status option" where
  "Score cs pod nodeName =
     (let called = [NodeInfosGet nodeName]
      in case NodeMemory (handle cs) nodeName of
           Inl err \<Rightarrow> (called, 0, Some (NewStatus Error err))
         | Inr nodeMemory \<Rightarrow>
             if scoreMode cs = leastMode then (called, - nodeMemory, None)
             else if scoreMode cs = mostMode then (called, nodeMemory, None)
             else (called, 0, None))"

subsection \<open>NormalizeScore\<close>

text \<open>
  Go's \<open>/\<close> on \<^verbatim>\<open>int64\<close> truncates towards zero and wraps around when the most negative
  value is divided by \<open>-1\<close>. It panics on a zero divisor; \<open>NormalizeScore\<close> divides by
  the constant 2 and by \<open>maxScore - minScore\<close> on the path where the two differ.
\<close>

definition int64_quo :: "int64 \<Rightarrow> int64 \<Rightarrow> int64" where
  "int64_quo a b = word_of_int (sint a sdiv sint b)"

text \<open>The scan for the least and the greatest score, from the first entry's score.\<close>

fun scanMinMax :: "NodeScore list \<Rightarrow> int64 \<times> int64 \<Rightarrow> int64 \<times> int64" where
  "scanMinMax [] (minScore, maxScore) = (minScore, maxScore)"
| "scanMinMax (nodeScore # rest) (minScore, maxScore) =
     scanMinMax rest
       (if ns_Score nodeScore <s minScore then ns_Score nodeScore else minScore,
        if maxScore <s ns_Score nodeScore then ns_Score nodeScore else maxScore)"

text \<open>
  The slice is rewritten in place, each entry from its own old score: the result is the
  slice after the call and the status.
\<close>

definition NormalizeScore :: "NodeScore list \<Rightarrow> NodeScore list \<times> Status" where
  "NormalizeScore scores =
     (case scores of
        [] \<Rightarrow> (scores, NewStatus Success ''No scores to normalize'')
      | first # _ \<Rightarrow>
          (let (minScore, maxScore) = scanMinMax scores (ns_Score first, ns_Score first);
               validMin = 0;
               validMax = MaxNodeScore
           in if minScore = maxScore
              then (map (\<lambda>e. e\<lparr>ns_Score := int64_quo (validMin + validMax) 2\<rparr>) scores,
                    NewStatus Success '''')
              else (let scoreRange = maxScore - minScore;
                        validRange = validMax - validMin
                    in (map (\<lambda>e. e\<lparr>ns_Score :=
                               int64_quo ((ns_Score e - minScore) * validRange) scoreRange
                                 + validMin\<rparr>) scores,
                        NewStatus Success ''''))))"

section \<open>PreFilter: the group quorum\<close>

lemma Message_NewStatus: "Message (NewStatus c r) = r"
  by (simp add: Message_def NewStatus_def)

text \<open>
  C10: in every branch (admit, reject and error) PreFilter returns a nil PreFilterResult,
  so it never restricts the set of candidate nodes.
\<close>

theorem PreFilter_result_nil: "fst (snd (PreFilter cs pod)) = None"
  by (simp add: PreFilter_def Let_def split: option.split sum.split)

text \<open>
  C7: a pod with no group-name label is admitted with the message "no group label", and
  no lookup is made on the way: the list of reader calls is empty. The scheduler (and with
  it the handle, that is the cluster state) and the other labels of the pod are arbitrary.
\<close>

theorem PreFilter_no_group_label:
  assumes "pod_Labels pod groupNameLabel = None"
  shows "PreFilter cs pod = ([], None, NewStatus Success ''no group label'') \<and>
         code (snd (snd (PreFilter cs pod))) = Success \<and>
         Message (snd (snd (PreFilter cs pod))) = ''no group label''"
  using assms by (simp add: PreFilter_def Message_NewStatus) (simp add: NewStatus_def)

theorem PreFilter_no_group_label_witness:
  "PreFilter
     \<lparr>handle = \<lparr>ListPods = (\<lambda>ns sel. Inl ''informer cache not synced''),
                NodeMemory = (\<lambda>n. Inl ''nodeinfo not found'')\<rparr>,
      scoreMode = ''Least''\<rparr>
     \<lparr>pod_Name = ''p'', pod_Namespace = ''default'',
      pod_Labels = [''minAvailable'' \<mapsto> ''5'']\<rparr>
   = ([], None, NewStatus Success ''no group label'')"
proof -
  have "pod_Labels \<lparr>pod_Name = ''p'', pod_Namespace = ''default'',
                   pod_Labels = [''minAvailable'' \<mapsto> ''5'']\<rparr> groupNameLabel = None"
    by (simp add: groupNameLabel_def)
  from PreFilter_no_group_label [OF this] show ?thesis
    by blast
qed

text \<open>
  C1: for a pod with a group-name label and a group query that succeeds with the list
  \<open>pods\<close>, the group size is the length of that list and the threshold is the value
  \<open>Atoi\<close> gives for the minimum-availability label. A group smaller than the threshold
  is unschedulable with the message "not enough pods in the group"; otherwise the status
  is a success. With the label \<open>3\<close>, two members are rejected and three are admitted.
\<close>

theorem PreFilter_quorum:
  assumes "pod_Labels pod groupNameLabel = Some g"
    and "ListPods (handle cs) (pod_Namespace pod) [(groupNameLabel, g)] = Inr pods"
  shows "snd (snd (PreFilter cs pod)) =
     (if int (length pods)
           < fst (Atoi (case pod_Labels pod minAvailableLabel of None \<Rightarrow> [] | Some v \<Rightarrow> v))
      then NewStatus Unschedulable ''not enough pods in the group''
      else NewStatus Success '''')"
  using assms by (simp add: PreFilter_def Let_def)

theorem PreFilter_quorum_witness:
  "snd (snd (PreFilter
       \<lparr>handle = \<lparr>ListPods = (\<lambda>ns sel. Inr (replicate 2 \<lparr>pod_Name = ''m'', pod_Namespace = ns,
                                                   pod_Labels = map_of sel\<rparr>)),
                  NodeMemory = (\<lambda>n. Inr 4096)\<rparr>,
        scoreMode = ''Least''\<rparr>
       \<lparr>pod_Name = ''p'', pod_Namespace = ''default'',
        pod_Labels = [''podGroup'' \<mapsto> ''g'', ''minAvailable'' \<mapsto> ''3'']\<rparr>))
     = NewStatus Unschedulable ''not enough pods in the group'' \<and>
   snd (snd (PreFilter
       \<lparr>handle = \<lparr>ListPods = (\<lambda>ns sel. Inr (replicate 3 \<lparr>pod_Name = ''m'', pod_Namespace = ns,
                                                   pod_Labels = map_of sel\<rparr>)),
                  NodeMemory = (\<lambda>n. Inr 4096)\<rparr>,
        scoreMode = ''Least''\<rparr>
       \<lparr>pod_Name = ''p'', pod_Namespace = ''default'',
        pod_Labels = [''podGroup'' \<mapsto> ''g'', ''minAvailable'' \<mapsto> ''3'']\<rparr>))
     = NewStatus Success ''''"
proof -
  let ?pod = "\<lparr>pod_Name = ''p'', pod_Namespace = ''default'',
        pod_Labels = [''podGroup'' \<mapsto> ''g'', ''minAvailable'' \<mapsto> ''3'']\<rparr>"
  have g: "pod_Labels ?pod groupNameLabel = Some ''g''"
    by (simp add: groupNameLabel_def)
  have a: "fst (Atoi (case pod_Labels ?pod minAvailableLabel of None \<Rightarrow> [] | Some v \<Rightarrow> v)) = 3"
    by (simp add: minAvailableLabel_def Atoi_def fastDigit_def)
  let ?h2 = "\<lparr>ListPods = (\<lambda>ns sel. Inr (replicate 2 \<lparr>pod_Name = ''m'', pod_Namespace = ns,
                                                   pod_Labels = map_of sel\<rparr>)),
             NodeMemory = (\<lambda>n. Inr 4096)\<rparr>"
  let ?h3 = "\<lparr>ListPods = (\<lambda>ns sel. Inr (replicate 3 \<lparr>pod_Name = ''m'', pod_Namespace = ns,
                                                   pod_Labels = map_of sel\<rparr>)),
             NodeMemory = (\<lambda>n. Inr 4096)\<rparr>"
  have l2: "ListPods (handle \<lparr>handle = ?h2, scoreMode = ''Least''\<rparr>) (pod_Namespace ?pod)
              [(groupNameLabel, ''g'')]
            = Inr (replicate 2 \<lparr>pod_Name = ''m'', pod_Namespace = ''default'',
                                 pod_Labels = map_of [(groupNameLabel, ''g'')]\<rparr>)"
    by simp
  have l3: "ListPods (handle \<lparr>handle = ?h3, scoreMode = ''Least''\<rparr>) (pod_Namespace ?pod)
              [(groupNameLabel, ''g'')]
            = Inr (replicate 3 \<lparr>pod_Name = ''m'', pod_Namespace = ''default'',
                                 pod_Labels = map_of [(groupNameLabel, ''g'')]\<rparr>)"
    by simp
  show ?thesis
    unfolding PreFilter_quorum [OF g l2] PreFilter_quorum [OF g l3] a
    by (simp add: NewStatus_def)
qed

subsection \<open>The threshold label\<close>

lemma fastDigit_cases:
  "fastDigit ch = (if (of_char ch :: nat) < 48 then of_char ch + 208 else of_char ch - 48)"
proof -
  define n :: nat where "n = of_char ch"
  have lt: "n < 256"
    unfolding n_def by (rule nat_of_char_less_256)
  have "(n + 256 - 48) mod 256 = (if n < 48 then n + 208 else n - 48)"
  proof (cases "n < 48")
    case True
    then show ?thesis by simp
  next
    case False
    then have "n + 256 - 48 = (n - 48) + 256"
      by simp
    then have "(n + 256 - 48) mod 256 = ((n - 48) + 256) mod 256"
      by (rule arg_cong)
    also have "\<dots> = (n - 48) mod 256"
      by (rule mod_add_self2)
    also have "\<dots> = n - 48"
      using lt by simp
    finally show ?thesis
      using False by simp
  qed
  then show ?thesis
    by (simp only: fastDigit_def n_def)
qed

lemma fastDigit_gt9: "9 < fastDigit ch \<longleftrightarrow> \<not> isDigit ch"
  by (auto simp add: fastDigit_cases isDigit_def)

lemma fastDigit_digitVal: "isDigit ch \<Longrightarrow> fastDigit ch = digitVal ch"
  by (simp add: fastDigit_cases isDigit_def digitVal_def)

lemma Atoi_fast_loop_None: "Atoi_fast_loop n cs = None \<longleftrightarrow> \<not> allDigits cs"
  by (induction cs arbitrary: n) (simp_all add: fastDigit_gt9)

lemma Atoi_fast_loop_bound:
  "Atoi_fast_loop n cs = Some m \<Longrightarrow> 0 \<le> n \<Longrightarrow> 0 \<le> m \<and> m < (n + 1) * 10 ^ length cs"
proof (induction cs arbitrary: n)
  case Nil
  then show ?case by simp
next
  case (Cons ch cs)
  from Cons.prems have d: "fastDigit ch \<le> 9"
    and r: "Atoi_fast_loop (n * 10 + int (fastDigit ch)) cs = Some m"
    by (simp_all split: if_splits)
  from Cons.prems(2) have "0 \<le> n * 10 + int (fastDigit ch)"
    by simp
  with Cons.IH [OF r] have m: "0 \<le> m" "m < (n * 10 + int (fastDigit ch) + 1) * 10 ^ length cs"
    by simp_all
  from d have "n * 10 + int (fastDigit ch) + 1 \<le> (n + 1) * 10"
    by simp
  then have "(n * 10 + int (fastDigit ch) + 1) * 10 ^ length cs \<le> ((n + 1) * 10) * 10 ^ length cs"
    by (rule mult_right_mono) simp
  also have "\<dots> = (n + 1) * 10 ^ length (ch # cs)"
    by simp
  finally have "(n * 10 + int (fastDigit ch) + 1) * 10 ^ length cs
      \<le> (n + 1) * 10 ^ length (ch # cs)" .
  with m(2) have "m < (n + 1) * 10 ^ length (ch # cs)"
    by (rule less_le_trans)
  with m(1) show ?case
    by (simp only: simp_thms)
qed

lemma digitsValue_ge: "n \<le> digitsValue n ds"
proof (induction ds arbitrary: n)
  case Nil
  then show ?case by simp
next
  case (Cons c ds)
  have "n \<le> n * 10 + digitVal c" by simp
  also have "\<dots> \<le> digitsValue (n * 10 + digitVal c) ds" by (rule Cons.IH)
  finally show ?case by simp
qed

lemma ParseUint_loop_syntax:
  "\<not> allDigits cs \<Longrightarrow> digitsValue n (takeWhile isDigit cs) < 2 ^ 64 \<Longrightarrow>
   ParseUint_loop n cs = (0, Some ErrSyntax)"
proof (induction cs arbitrary: n)
  case Nil
  then show ?case by simp
next
  case (Cons c cs)
  show ?case
  proof (cases "isDigit c")
    case False
    then show ?thesis by simp
  next
    case True
    define n1 where "n1 = n * 10 + digitVal c"
    from True Cons.prems(2) have v: "digitsValue n1 (takeWhile isDigit cs) < 2 ^ 64"
      by (simp add: n1_def)
    with digitsValue_ge [of n1 "takeWhile isDigit cs"] have small: "n1 < 18446744073709551616"
      by simp
    then have n: "\<not> maxUint64 div 10 + 1 \<le> n"
      by (simp add: n1_def maxUint64_def)
    from small have m10: "(n * 10) mod 18446744073709551616 = n * 10"
      by (simp add: n1_def)
    from small have m1: "(n * 10 + digitVal c) mod 18446744073709551616 = n1"
      by (simp add: n1_def)
    from small have chk: "\<not> (n1 < n * 10 \<or> maxUint64 < n1)"
      by (simp add: n1_def maxUint64_def)
    from True Cons.prems(1) have "\<not> allDigits cs"
      by simp
    from Cons.IH [OF this v] have r: "ParseUint_loop n1 cs = (0, Some ErrSyntax)" .
    have "ParseUint_loop n (c # cs) =
        (let n10 = (n * 10) mod 18446744073709551616;
             n1 = (n10 + digitVal c) mod 18446744073709551616
         in if n1 < n10 \<or> maxUint64 < n1 then (maxUint64, Some ErrRange)
            else ParseUint_loop n1 cs)"
      using True n by simp
    also have "\<dots> = ParseUint_loop n1 cs"
      unfolding Let_def m10 m1 using chk by simp
    finally show ?thesis
      using r by simp
  qed
qed

lemma ParseUint_loop_allDigits:
  "allDigits cs \<Longrightarrow> snd (ParseUint_loop n cs) \<noteq> Some ErrSyntax"
  by (induction cs arbitrary: n) (simp_all add: Let_def)

text \<open>The digits of the fast path stay inside the range of \<^verbatim>\<open>int\<close>.\<close>

lemma Atoi_fast_no_overflow:
  assumes "length body < 19" and "Atoi_fast_loop 0 body = Some m"
  shows "0 \<le> m \<and> m < 2 ^ 63"
proof -
  from Atoi_fast_loop_bound [OF assms(2)] have m: "0 \<le> m" "m < 10 ^ length body"
    by simp_all
  from assms(1) have "(10::int) ^ length body \<le> 10 ^ 18"
    by (intro power_increasing) simp_all
  with m show ?thesis
    by simp
qed

text \<open>
  A string that is not a well-formed decimal integer is a syntax error with value 0 when
  its leading digits fit into \<^verbatim>\<open>uint64\<close>, and a well-formed one is never a syntax error.
\<close>

lemma Atoi_syntax_error:
  assumes "\<not> wellFormedDecimal s" and "leadingDigitsValue s < 2 ^ 64"
  shows "Atoi s = (0, Some ErrSyntax)"
proof (cases s)
  case Nil
  then show ?thesis
    by (simp add: Atoi_def ParseInt_def)
next
  case (Cons c cs)
  define body where "body = (if c = CHR ''+'' \<or> c = CHR ''-'' then cs else c # cs)"
  from assms(1) have bad: "body = [] \<or> \<not> allDigits body"
    unfolding Cons by (auto simp add: body_def)
  from assms(2) have v: "digitsValue 0 (takeWhile isDigit body) < 2 ^ 64"
    unfolding Cons leadingDigitsValue_def list.case body_def .
  have b1: "(if c = CHR ''-'' \<or> c = CHR ''+'' then cs else c # cs) = body"
    and b2: "(if c = CHR ''+'' then cs else if c = CHR ''-'' then cs else c # cs) = body"
    by (auto simp add: body_def)
  have fast: "body \<noteq> [] \<Longrightarrow> Atoi_fast_loop 0 body = None"
    using bad by (simp add: Atoi_fast_loop_None)
  have "ParseUint body = (0, Some ErrSyntax)"
  proof (cases "body = []")
    case True
    then show ?thesis by (simp add: ParseUint_def)
  next
    case False
    with bad v show ?thesis
      by (simp add: ParseUint_def ParseUint_loop_syntax)
  qed
  then have slow: "ParseInt s = (0, Some ErrSyntax)"
    unfolding ParseInt_def Cons list.case Let_def b2 by simp
  show ?thesis
  proof (cases "body = []")
    case True
    with slow show ?thesis
      unfolding Atoi_def Cons list.case Let_def b1 by simp
  next
    case False
    with slow fast show ?thesis
      unfolding Atoi_def Cons list.case Let_def b1 by simp
  qed
qed

lemma Atoi_wellformed:
  assumes "wellFormedDecimal s"
  shows "snd (Atoi s) \<noteq> Some ErrSyntax"
proof (cases s)
  case Nil
  with assms show ?thesis by simp
next
  case (Cons c cs)
  define body where "body = (if c = CHR ''+'' \<or> c = CHR ''-'' then cs else c # cs)"
  from assms have ok: "body \<noteq> []" "allDigits body"
    unfolding Cons by (auto simp add: body_def split: if_splits)
  have b1: "(if c = CHR ''-'' \<or> c = CHR ''+'' then cs else c # cs) = body"
    and b2: "(if c = CHR ''+'' then cs else if c = CHR ''-'' then cs else c # cs) = body"
    by (auto simp add: body_def)
  from ok have "Atoi_fast_loop 0 body \<noteq> None"
    by (simp add: Atoi_fast_loop_None)
  then obtain n where fast: "Atoi_fast_loop 0 body = Some n"
    by auto
  from ok have "snd (ParseUint body) \<noteq> Some ErrSyntax"
    by (simp add: ParseUint_def ParseUint_loop_allDigits)
  then have slow: "snd (ParseInt s) \<noteq> Some ErrSyntax"
    unfolding ParseInt_def Cons list.case Let_def b2
    by (cases "ParseUint body") (auto split: if_splits)
  from ok(1) fast slow show ?thesis
    unfolding Atoi_def Cons list.case Let_def b1 by simp
qed

text \<open>
  When the leading digits do not fit, the loop stops at the digit that overflows: the
  value is the bound of the range, whatever follows that digit.
\<close>

lemma Atoi_overflow_before_syntax:
  "Atoi ''99999999999999999999'' = (9223372036854775807, Some ErrRange) \<and>
   Atoi ''99999999999999999999x'' = (9223372036854775807, Some ErrRange) \<and>
   Atoi ''-99999999999999999999x'' = (- 9223372036854775808, Some ErrRange) \<and>
   Atoi ''18446744073709551615x'' = (0, Some ErrSyntax)"
  by (simp add: Atoi_def ParseInt_def ParseUint_def int64_of_def isDigit_def digitVal_def
      maxUint64_def Let_def)

text \<open>
  C4, as stated: for a pod with a group-name label whose minimum-availability label is
  absent or is not a well-formed decimal integer, the threshold is zero and PreFilter
  returns a success whenever the group query succeeds. This fails for a label whose
  leading digits overflow before the malformed byte is read: for the label
  \<open>99999999999999999999x\<close> the threshold is the greatest \<^verbatim>\<open>int\<close>, and a group of two
  members is rejected.
\<close>

theorem PreFilter_malformed_threshold_counterexample:
  "\<not> wellFormedDecimal ''99999999999999999999x'' \<and>
   fst (Atoi ''99999999999999999999x'') = 9223372036854775807 \<and>
   PreFilter
       \<lparr>handle = \<lparr>ListPods = (\<lambda>ns sel. Inr (replicate 2 \<lparr>pod_Name = ''m'', pod_Namespace = ns,
                                                   pod_Labels = map_of sel\<rparr>)),
                  NodeMemory = (\<lambda>n. Inr 4096)\<rparr>,
        scoreMode = ''Least''\<rparr>
       \<lparr>pod_Name = ''p'', pod_Namespace = ''default'',
        pod_Labels = [''podGroup'' \<mapsto> ''g'', ''minAvailable'' \<mapsto> ''99999999999999999999x'']\<rparr>
     = ([PodsList ''default'' [(''podGroup'', ''g'')]], None,
        NewStatus Unschedulable ''not enough pods in the group'')"
  by (simp add: PreFilter_def groupNameLabel_def minAvailableLabel_def Atoi_def ParseInt_def
      ParseUint_def int64_of_def isDigit_def digitVal_def maxUint64_def Let_def)

text \<open>
  C4, amended: for a pod with a group-name label whose minimum-availability label is
  absent, or is not a well-formed decimal integer and has leading digits (after an
  optional sign, up to the first byte that is not a digit) that denote a number below
  \<open>2 ^ 64\<close>, the threshold is zero and PreFilter returns a success whenever the group
  query succeeds: no rejection and no error.
\<close>

theorem PreFilter_malformed_threshold:
  assumes "pod_Labels pod groupNameLabel = Some g"
    and "ListPods (handle cs) (pod_Namespace pod) [(groupNameLabel, g)] = Inr pods"
    and "case pod_Labels pod minAvailableLabel of
           None \<Rightarrow> True
         | Some v \<Rightarrow> \<not> wellFormedDecimal v \<and> leadingDigitsValue v < 2 ^ 64"
  shows "fst (Atoi (case pod_Labels pod minAvailableLabel of None \<Rightarrow> [] | Some v \<Rightarrow> v)) = 0 \<and>
         snd (snd (PreFilter cs pod)) = NewStatus Success ''''"
proof -
  let ?label = "case pod_Labels pod minAvailableLabel of None \<Rightarrow> [] | Some v \<Rightarrow> v"
  have "\<not> wellFormedDecimal ?label" and "leadingDigitsValue ?label < 2 ^ 64"
    using assms(3) by (simp_all add: leadingDigitsValue_def split: option.splits)
  then have "Atoi ?label = (0, Some ErrSyntax)"
    by (rule Atoi_syntax_error)
  then show ?thesis
    using assms(1,2) by (simp add: PreFilter_def Let_def)
qed

theorem PreFilter_malformed_threshold_witness:
  "fst (Atoi ''three'') = 0 \<and>
   snd (snd (PreFilter
       \<lparr>handle = \<lparr>ListPods = (\<lambda>ns sel. Inr []), NodeMemory = (\<lambda>n. Inr 4096)\<rparr>,
        scoreMode = ''Least''\<rparr>
       \<lparr>pod_Name = ''p'', pod_Namespace = ''default'',
        pod_Labels = [''podGroup'' \<mapsto> ''g'', ''minAvailable'' \<mapsto> ''three'']\<rparr>))
     = NewStatus Success ''''"
proof -
  let ?pod = "\<lparr>pod_Name = ''p'', pod_Namespace = ''default'',
        pod_Labels = [''podGroup'' \<mapsto> ''g'', ''minAvailable'' \<mapsto> ''three'']\<rparr>"
  let ?cs = "\<lparr>handle = \<lparr>ListPods = (\<lambda>ns sel. Inr []), NodeMemory = (\<lambda>n. Inr 4096)\<rparr>,
        scoreMode = ''Least''\<rparr>"
  have g: "pod_Labels ?pod groupNameLabel = Some ''g''"
    by (simp add: groupNameLabel_def)
  have l: "ListPods (handle ?cs) (pod_Namespace ?pod) [(groupNameLabel, ''g'')] = Inr []"
    by simp
  have m: "case pod_Labels ?pod minAvailableLabel of
             None \<Rightarrow> True
           | Some v \<Rightarrow> \<not> wellFormedDecimal v \<and> leadingDigitsValue v < 2 ^ 64"
    by (simp add: minAvailableLabel_def isDigit_def leadingDigitsValue_def)
  have v: "(case pod_Labels ?pod minAvailableLabel of None \<Rightarrow> [] | Some v \<Rightarrow> v) = ''three''"
    by (simp add: minAvailableLabel_def)
  from PreFilter_malformed_threshold [OF g l m] show ?thesis
    unfolding v by simp
qed

section \<open>Lookup failures\<close>

text \<open>
  C9: a lookup that fails makes the operation that made it an error whose message is the
  text of the failure. When the group query of PreFilter fails, the status of PreFilter
  has code Error and that text as its message; when the node lookup of Score fails, Score
  returns the score 0 and a status with code Error and that text. Neither becomes a
  success or an unschedulable status.
\<close>

theorem lookup_failures_are_errors:
  "(pod_Labels pod groupNameLabel = Some g \<and>
    ListPods (handle cs) (pod_Namespace pod) [(groupNameLabel, g)] = Inl err \<longrightarrow>
      code (snd (snd (PreFilter cs pod))) = Error \<and>
      Message (snd (snd (PreFilter cs pod))) = err) \<and>
   (NodeMemory (handle cs) nodeName = Inl err' \<longrightarrow>
      fst (snd (Score cs pod nodeName)) = 0 \<and>
      map_option code (snd (snd (Score cs pod nodeName))) = Some Error \<and>
      map_option Message (snd (snd (Score cs pod nodeName))) = Some err')"
  by (simp add: PreFilter_def Score_def Let_def Message_NewStatus) (simp add: NewStatus_def)

theorem lookup_failures_are_errors_witness:
  "code (snd (snd (PreFilter
       \<lparr>handle = \<lparr>ListPods = (\<lambda>ns sel. Inl ''informer cache not synced''),
                  NodeMemory = (\<lambda>n. Inl ''nodeinfo not found'')\<rparr>,
        scoreMode = ''Most''\<rparr>
       \<lparr>pod_Name = ''p'', pod_Namespace = ''default'',
        pod_Labels = [''podGroup'' \<mapsto> ''g'']\<rparr>))) = Error \<and>
   Message (snd (snd (PreFilter
       \<lparr>handle = \<lparr>ListPods = (\<lambda>ns sel. Inl ''informer cache not synced''),
                  NodeMemory = (\<lambda>n. Inl ''nodeinfo not found'')\<rparr>,
        scoreMode = ''Most''\<rparr>
       \<lparr>pod_Name = ''p'', pod_Namespace = ''default'',
        pod_Labels = [''podGroup'' \<mapsto> ''g'']\<rparr>))) = ''informer cache not synced'' \<and>
   map_option Message (snd (snd (Score
       \<lparr>handle = \<lparr>ListPods = (\<lambda>ns sel. Inl ''informer cache not synced''),
                  NodeMemory = (\<lambda>n. Inl ''nodeinfo not found'')\<rparr>,
        scoreMode = ''Most''\<rparr>
       \<lparr>pod_Name = ''p'', pod_Namespace = ''default'',
        pod_Labels = [''podGroup'' \<mapsto> ''g'']\<rparr> ''node1''))) = Some ''nodeinfo not found''"
  using lookup_failures_are_errors
    [of "\<lparr>pod_Name = ''p'', pod_Namespace = ''default'', pod_Labels = [''podGroup'' \<mapsto> ''g'']\<rparr>"
        "''g''"
        "\<lparr>handle = \<lparr>ListPods = (\<lambda>ns sel. Inl ''informer cache not synced''),
                  NodeMemory = (\<lambda>n. Inl ''nodeinfo not found'')\<rparr>,
        scoreMode = ''Most''\<rparr>"
        "''informer cache not synced''" "''node1''" "''nodeinfo not found''"]
  by (simp add: groupNameLabel_def)

section \<open>Score: allocatable memory by mode\<close>

lemma sint_neg64: "sint (m::int64) \<noteq> - (2 ^ 63) \<Longrightarrow> sint (- m) = - sint m"
proof -
  assume h: "sint m \<noteq> - (2 ^ 63)"
  have "- (2 ^ 63) \<le> sint m" "sint m < 2 ^ 63"
    using sint_ge [of m] sint_lt [of m] by simp_all
  with h have "- (2 ^ 63) \<le> - sint m \<and> - sint m < 2 ^ 63" by simp
  then show ?thesis
    by (simp add: sint_word_minus signed_take_bit_int_eq_self)
qed

text \<open>The negation of int64 wraps around at the most negative value only.\<close>

lemma int64_neg_wraps_at_min: "- (- 9223372036854775808 :: int64) = - 9223372036854775808"
  by simp

text \<open>
  C3: for a node whose lookup gives the allocatable memory \<open>m\<close>, Score returns \<open>- m\<close>
  in mode Least, \<open>m\<close> in mode Most and 0 in any other mode, with a nil status. Memory
  is a quantity that is not negative: for two nodes of which the second has strictly more
  memory, the second has the strictly lower score in mode Least and the strictly higher
  one in mode Most.
\<close>

theorem Score_by_mode:
  assumes "NodeMemory (handle cs) n1 = Inr m1"
    and "NodeMemory (handle cs) n2 = Inr m2"
  shows "Score cs pod n1 =
           ([NodeInfosGet n1],
            (if scoreMode cs = leastMode then - m1
             else if scoreMode cs = mostMode then m1 else 0),
            None) \<and>
         (0 \<le>s m1 \<and> m1 <s m2 \<longrightarrow>
            (scoreMode cs = leastMode \<longrightarrow>
               fst (snd (Score cs pod n2)) <s fst (snd (Score cs pod n1))) \<and>
            (scoreMode cs = mostMode \<longrightarrow>
               fst (snd (Score cs pod n1)) <s fst (snd (Score cs pod n2))))"
proof -
  have ord: "- m2 <s - m1" if "0 \<le>s m1" and "m1 <s m2"
  proof -
    from that have "0 \<le> sint m1" and "sint m1 < sint m2"
      by (simp_all add: word_sle_eq word_sless_alt)
    then have "sint (- m1) = - sint m1" and "sint (- m2) = - sint m2"
      by (simp_all add: sint_neg64)
    with \<open>sint m1 < sint m2\<close> show ?thesis
      by (simp add: word_sless_alt)
  qed
  have least_ne_most: "leastMode \<noteq> mostMode"
    by (simp add: leastMode_def mostMode_def)
  show ?thesis
    using assms ord least_ne_most by (auto simp add: Score_def Let_def)
qed

theorem Score_by_mode_witness:
  "Score \<lparr>handle = \<lparr>ListPods = (\<lambda>ns sel. Inr []),
                    NodeMemory = (\<lambda>n. if n = ''nodeA'' then Inr 4096 else Inr 8192)\<rparr>,
          scoreMode = ''Least''\<rparr>
         \<lparr>pod_Name = ''p'', pod_Namespace = ''default'', pod_Labels = Map.empty\<rparr> ''nodeA''
     = ([NodeInfosGet ''nodeA''], - 4096, None) \<and>
   fst (snd (Score \<lparr>handle = \<lparr>ListPods = (\<lambda>ns sel. Inr []),
                    NodeMemory = (\<lambda>n. if n = ''nodeA'' then Inr 4096 else Inr 8192)\<rparr>,
          scoreMode = ''Least''\<rparr>
         \<lparr>pod_Name = ''p'', pod_Namespace = ''default'', pod_Labels = Map.empty\<rparr> ''nodeB''))
     <s
   fst (snd (Score \<lparr>handle = \<lparr>ListPods = (\<lambda>ns sel. Inr []),
                    NodeMemory = (\<lambda>n. if n = ''nodeA'' then Inr 4096 else Inr 8192)\<rparr>,
          scoreMode = ''Least''\<rparr>
         \<lparr>pod_Name = ''p'', pod_Namespace = ''default'', pod_Labels = Map.empty\<rparr> ''nodeA''))"
proof -
  let ?cs = "\<lparr>handle = \<lparr>ListPods = (\<lambda>ns sel. Inr []),
                    NodeMemory = (\<lambda>n. if n = ''nodeA'' then Inr 4096 else Inr 8192)\<rparr>,
          scoreMode = ''Least''\<rparr>"
  have a: "NodeMemory (handle ?cs) ''nodeA'' = Inr 4096"
    and b: "NodeMemory (handle ?cs) ''nodeB'' = Inr 8192"
    by simp_all
  have m: "(0::int64) \<le>s 4096 \<and> (4096::int64) <s 8192"
    by (simp add: word_sle_eq word_sless_alt)
  from Score_by_mode
      [OF a b, where pod = "\<lparr>pod_Name = ''p'', pod_Namespace = ''default'', pod_Labels = Map.empty\<rparr>"]
    m
  show ?thesis
    by (auto simp add: leastMode_def mostMode_def)
qed

section \<open>NormalizeScore: rescaling a batch of scores\<close>

subsection \<open>The scan for the least and the greatest score\<close>

lemma sint64_eq_iff: "(a::int64) = b \<longleftrightarrow> sint a = sint b"
  by (rule word_eq_iff_signed)

lemma scanMinMax_Cons:
  "scanMinMax (x # xs) (a, b) =
     scanMinMax xs (if ns_Score x <s a then ns_Score x else a,
                    if b <s ns_Score x then ns_Score x else b)"
  by simp

lemma scanMinMax_fst_le:
  "sint (fst (scanMinMax xs (a, b))) \<le> sint a \<and>
   (\<forall>e\<in>set xs. sint (fst (scanMinMax xs (a, b))) \<le> sint (ns_Score e))"
proof (induction xs arbitrary: a b)
  case Nil
  then show ?case by simp
next
  case (Cons x xs)
  define a' where "a' = (if ns_Score x <s a then ns_Score x else a)"
  define b' where "b' = (if b <s ns_Score x then ns_Score x else b)"
  have eq: "scanMinMax (x # xs) (a, b) = scanMinMax xs (a', b')"
    unfolding a'_def b'_def by (rule scanMinMax_Cons)
  have "sint a' \<le> sint a" and "sint a' \<le> sint (ns_Score x)"
    by (simp_all add: a'_def word_sless_alt)
  with Cons.IH [where a = a' and b = b'] show ?case
    unfolding eq by auto
qed

lemma scanMinMax_snd_ge:
  "sint b \<le> sint (snd (scanMinMax xs (a, b))) \<and>
   (\<forall>e\<in>set xs. sint (ns_Score e) \<le> sint (snd (scanMinMax xs (a, b))))"
proof (induction xs arbitrary: a b)
  case Nil
  then show ?case by simp
next
  case (Cons x xs)
  define a' where "a' = (if ns_Score x <s a then ns_Score x else a)"
  define b' where "b' = (if b <s ns_Score x then ns_Score x else b)"
  have eq: "scanMinMax (x # xs) (a, b) = scanMinMax xs (a', b')"
    unfolding a'_def b'_def by (rule scanMinMax_Cons)
  have "sint b \<le> sint b'" and "sint (ns_Score x) \<le> sint b'"
    by (simp_all add: b'_def word_sless_alt)
  with Cons.IH [where a = a' and b = b'] show ?case
    unfolding eq by auto
qed

lemma scanMinMax_fst_mem:
  "fst (scanMinMax xs (a, b)) = a \<or> fst (scanMinMax xs (a, b)) \<in> ns_Score ` set xs"
proof (induction xs arbitrary: a b)
  case Nil
  then show ?case by simp
next
  case (Cons x xs)
  define a' where "a' = (if ns_Score x <s a then ns_Score x else a)"
  define b' where "b' = (if b <s ns_Score x then ns_Score x else b)"
  have eq: "scanMinMax (x # xs) (a, b) = scanMinMax xs (a', b')"
    unfolding a'_def b'_def by (rule scanMinMax_Cons)
  have "a' = a \<or> a' = ns_Score x"
    by (simp add: a'_def)
  with Cons.IH [where a = a' and b = b'] show ?case
    unfolding eq by auto
qed

lemma scanMinMax_snd_mem:
  "snd (scanMinMax xs (a, b)) = b \<or> snd (scanMinMax xs (a, b)) \<in> ns_Score ` set xs"
proof (induction xs arbitrary: a b)
  case Nil
  then show ?case by simp
next
  case (Cons x xs)
  define a' where "a' = (if ns_Score x <s a then ns_Score x else a)"
  define b' where "b' = (if b <s ns_Score x then ns_Score x else b)"
  have eq: "scanMinMax (x # xs) (a, b) = scanMinMax xs (a', b')"
    unfolding a'_def b'_def by (rule scanMinMax_Cons)
  have "b' = b \<or> b' = ns_Score x"
    by (simp add: b'_def)
  with Cons.IH [where a = a' and b = b'] show ?case
    unfolding eq by auto
qed

text \<open>From the first entry's score the scan returns the least and the greatest score.\<close>

lemma scanMinMax_least_greatest:
  assumes "lo \<in> ns_Score ` set (x # xs)" and "\<forall>e\<in>set (x # xs). lo \<le>s ns_Score e"
    and "hi \<in> ns_Score ` set (x # xs)" and "\<forall>e\<in>set (x # xs). ns_Score e \<le>s hi"
  shows "scanMinMax (x # xs) (ns_Score x, ns_Score x) = (lo, hi)"
proof -
  let ?r = "scanMinMax (x # xs) (ns_Score x, ns_Score x)"
  have "fst ?r \<in> ns_Score ` set (x # xs)"
    using scanMinMax_fst_mem [where xs = "x # xs" and a = "ns_Score x" and b = "ns_Score x"] by auto
  with assms(2) have "sint lo \<le> sint (fst ?r)"
    by (auto simp add: word_sle_eq)
  moreover from assms(1) have "sint (fst ?r) \<le> sint lo"
    using scanMinMax_fst_le [where xs = "x # xs" and a = "ns_Score x" and b = "ns_Score x"] by blast
  ultimately have l: "fst ?r = lo"
    by (simp add: sint64_eq_iff)
  have "snd ?r \<in> ns_Score ` set (x # xs)"
    using scanMinMax_snd_mem [where xs = "x # xs" and a = "ns_Score x" and b = "ns_Score x"] by auto
  with assms(4) have "sint (snd ?r) \<le> sint hi"
    by (auto simp add: word_sle_eq)
  moreover from assms(3) have "sint hi \<le> sint (snd ?r)"
    using scanMinMax_snd_ge [where xs = "x # xs" and a = "ns_Score x" and b = "ns_Score x"] by blast
  ultimately have h: "snd ?r = hi"
    by (simp add: sint64_eq_iff)
  from l h show ?thesis
    by (metis prod.collapse)
qed

subsection \<open>Arithmetic on int64 without overflow\<close>

lemma sint_MaxNodeScore: "sint MaxNodeScore = 100"
  by (simp add: MaxNodeScore_def)

lemma sint64_bounds: "- (2 ^ 63) \<le> sint (x::int64)" "sint (x::int64) < 2 ^ 63"
  using sint_ge [of x] sint_lt [of x] by simp_all

lemma sint_diff64:
  assumes "- (2 ^ 63) \<le> sint (a::int64) - sint b" and "sint a - sint b < 2 ^ 63"
  shows "sint (a - b) = sint a - sint b"
  using assms by (simp add: sint_word_diff signed_take_bit_int_eq_self)

lemma sint_mult64:
  assumes "- (2 ^ 63) \<le> sint (a::int64) * sint b" and "sint a * sint b < 2 ^ 63"
  shows "sint (a * b) = sint a * sint b"
  using assms by (simp add: sint_word_mult signed_take_bit_int_eq_self)

lemma sint_int64_quo_nonneg:
  assumes "0 \<le> sint a" and "0 < sint b"
  shows "sint (int64_quo a b) = sint a div sint b"
proof -
  have sd: "sint a sdiv sint b = sint a div sint b"
    using assms by (simp add: signed_divide_int_def sgn_if)
  have "0 \<le> sint a div sint b"
    using assms by (simp add: pos_imp_zdiv_nonneg_iff)
  moreover have "sint a div sint b \<le> sint a div 1"
    using assms by (intro zdiv_mono2) simp_all
  moreover note sint64_bounds(2) [of a]
  ultimately have "- (2 ^ 63) \<le> sint a div sint b \<and> sint a div sint b < 2 ^ 63"
    by simp
  then show ?thesis
    unfolding int64_quo_def sd
    by (simp add: sint_sbintrunc' signed_take_bit_int_eq_self)
qed

text \<open>
  The value of one normalised entry when the product does not leave the range of int64.
\<close>

lemma normalized_value:
  assumes "sint lo \<le> sint x" and "sint x \<le> sint hi" and "sint lo < sint hi"
    and "(sint hi - sint lo) * sint MaxNodeScore < 2 ^ 63"
  shows "sint (int64_quo ((x - lo) * (MaxNodeScore - 0)) (hi - lo) + 0) =
         ((sint x - sint lo) * sint MaxNodeScore) div (sint hi - sint lo)"
proof -
  from assms have big: "(sint hi - sint lo) * 100 < 2 ^ 63"
    by (simp add: sint_MaxNodeScore)
  from assms(3) big have d: "sint hi - sint lo < 2 ^ 63"
    by simp
  from assms(1-3) d have dx: "sint (x - lo) = sint x - sint lo"
    by (intro sint_diff64) simp_all
  from assms(3) d have dh: "sint (hi - lo) = sint hi - sint lo"
    by (intro sint_diff64) simp_all
  have le: "(sint x - sint lo) * 100 \<le> (sint hi - sint lo) * 100"
    using assms(2) by simp
  have nn: "0 \<le> (sint x - sint lo) * 100"
    using assms(1) by simp
  have "sint ((x - lo) * MaxNodeScore) = sint (x - lo) * sint MaxNodeScore"
    using le nn big by (intro sint_mult64) (simp_all add: dx sint_MaxNodeScore)
  then have p: "sint ((x - lo) * MaxNodeScore) = (sint x - sint lo) * 100"
    by (simp add: dx sint_MaxNodeScore)
  have "sint (int64_quo ((x - lo) * MaxNodeScore) (hi - lo)) =
        sint ((x - lo) * MaxNodeScore) div sint (hi - lo)"
    using nn assms(3) by (intro sint_int64_quo_nonneg) (simp_all add: p dh)
  then show ?thesis
    by (simp add: p dh sint_MaxNodeScore)
qed

lemma normalized_range:
  assumes "sint lo \<le> sint x" and "sint x \<le> sint hi" and "sint lo < sint hi"
  shows "0 \<le> ((sint x - sint lo) * 100) div (sint hi - sint lo)"
    and "((sint x - sint lo) * 100) div (sint hi - sint lo) \<le> 100"
proof -
  define d where "d = sint hi - sint lo"
  define n where "n = (sint x - sint lo) * 100"
  have dpos: "0 < d"
    using assms(3) by (simp add: d_def)
  have "0 \<le> n"
    using assms(1) by (simp add: n_def)
  with dpos have "0 \<le> n div d"
    by (simp add: pos_imp_zdiv_nonneg_iff)
  then show "0 \<le> ((sint x - sint lo) * 100) div (sint hi - sint lo)"
    by (simp only: n_def d_def)
  have "n \<le> 100 * d"
    using assms(2) by (simp add: n_def d_def)
  then have "n div d \<le> (100 * d) div d"
    using dpos by (rule zdiv_mono1)
  with dpos have "n div d \<le> 100"
    by simp
  then show "((sint x - sint lo) * 100) div (sint hi - sint lo) \<le> 100"
    by (simp only: n_def d_def)
qed

text \<open>
  The divisor \<open>maxScore - minScore\<close> is not zero on the path that divides by it, so
  NormalizeScore never panics.
\<close>

lemma scoreRange_nonzero: "minScore \<noteq> maxScore \<Longrightarrow> maxScore - minScore \<noteq> (0::int64)"
  by simp

text \<open>The slice that NormalizeScore leaves when the least and greatest scores differ.\<close>

lemma NormalizeScore_spread:
  assumes "scores \<noteq> []"
    and "lo \<in> ns_Score ` set scores" and "\<forall>e\<in>set scores. lo \<le>s ns_Score e"
    and "hi \<in> ns_Score ` set scores" and "\<forall>e\<in>set scores. ns_Score e \<le>s hi"
    and "lo \<noteq> hi"
  shows "NormalizeScore scores =
           (map (\<lambda>e. e\<lparr>ns_Score :=
                   int64_quo ((ns_Score e - lo) * (MaxNodeScore - 0)) (hi - lo) + 0\<rparr>) scores,
            NewStatus Success '''')"
proof -
  from assms(1) obtain x xs where c: "scores = x # xs"
    by (cases scores) auto
  have "scanMinMax scores (ns_Score x, ns_Score x) = (lo, hi)"
    using assms(2-5) unfolding c by (rule scanMinMax_least_greatest)
  with assms(6) show ?thesis
    by (simp add: NormalizeScore_def Let_def c del: scanMinMax.simps)
qed

lemma scanMinMax_bounds:
  fixes x xs
  defines "r \<equiv> scanMinMax (x # xs) (ns_Score x, ns_Score x)"
  shows "fst r \<in> ns_Score ` set (x # xs)" and "\<forall>e\<in>set (x # xs). fst r \<le>s ns_Score e"
    and "snd r \<in> ns_Score ` set (x # xs)" and "\<forall>e\<in>set (x # xs). ns_Score e \<le>s snd r"
proof -
  show "fst r \<in> ns_Score ` set (x # xs)"
    unfolding r_def
    using scanMinMax_fst_mem [where xs = "x # xs" and a = "ns_Score x" and b = "ns_Score x"]
    by auto
  show "snd r \<in> ns_Score ` set (x # xs)"
    unfolding r_def
    using scanMinMax_snd_mem [where xs = "x # xs" and a = "ns_Score x" and b = "ns_Score x"]
    by auto
  show "\<forall>e\<in>set (x # xs). fst r \<le>s ns_Score e"
    unfolding r_def word_sle_eq
    using scanMinMax_fst_le [where xs = "x # xs" and a = "ns_Score x" and b = "ns_Score x"]
    by blast
  show "\<forall>e\<in>set (x # xs). ns_Score e \<le>s snd r"
    unfolding r_def word_sle_eq
    using scanMinMax_snd_ge [where xs = "x # xs" and a = "ns_Score x" and b = "ns_Score x"]
    by blast
qed

lemma NormalizeScore_value:
  assumes "i < length scores"
    and "lo \<in> ns_Score ` set scores" and "\<forall>e\<in>set scores. lo \<le>s ns_Score e"
    and "hi \<in> ns_Score ` set scores" and "\<forall>e\<in>set scores. ns_Score e \<le>s hi"
    and "lo \<noteq> hi"
    and "(sint hi - sint lo) * sint MaxNodeScore < 2 ^ 63"
  shows "sint (ns_Score (fst (NormalizeScore scores) ! i)) =
           ((sint (ns_Score (scores ! i)) - sint lo) * sint MaxNodeScore)
             div (sint hi - sint lo)"
proof -
  let ?x = "ns_Score (scores ! i)"
  let ?r = "ns_Score (fst (NormalizeScore scores) ! i)"
  from assms(1) have ne: "scores \<noteq> []"
    by auto
  from assms(1) have mem: "scores ! i \<in> set scores"
    by simp
  have r: "?r = int64_quo ((?x - lo) * (MaxNodeScore - 0)) (hi - lo) + 0"
    using assms(1) by (simp add: NormalizeScore_spread [OF ne assms(2-6)])
  from mem assms(3,5) have lx: "sint lo \<le> sint ?x" and xh: "sint ?x \<le> sint hi"
    by (auto simp add: word_sle_eq)
  from lx xh assms(6) have lh: "sint lo < sint hi"
    by (simp add: sint64_eq_iff)
  show ?thesis
    unfolding r using lx xh lh assms(7) by (rule normalized_value)
qed

lemma NormalizeScore_length: "length (fst (NormalizeScore scores)) = length scores"
  by (simp add: NormalizeScore_def Let_def split: list.split prod.split)

lemma NormalizeScore_names: "map ns_Name (fst (NormalizeScore scores)) = map ns_Name scores"
  by (simp add: NormalizeScore_def Let_def comp_def split: list.split prod.split)

lemma NormalizeScore_monotone:
  assumes spread: "\<forall>a\<in>set scores. \<forall>b\<in>set scores.
            (sint (ns_Score a) - sint (ns_Score b)) * sint MaxNodeScore < 2 ^ 63"
    and i: "i < length scores" and j: "j < length scores"
    and le: "ns_Score (scores ! i) \<le>s ns_Score (scores ! j)"
  shows "ns_Score (fst (NormalizeScore scores) ! i) \<le>s ns_Score (fst (NormalizeScore scores) ! j)"
proof -
  from i obtain x xs where c: "scores = x # xs"
    by (cases scores) auto
  define lo where "lo = fst (scanMinMax scores (ns_Score x, ns_Score x))"
  define hi where "hi = snd (scanMinMax scores (ns_Score x, ns_Score x))"
  have sc: "scanMinMax scores (ns_Score x, ns_Score x) = (lo, hi)"
    by (simp add: lo_def hi_def)
  have lo: "lo \<in> ns_Score ` set scores" "\<forall>e\<in>set scores. lo \<le>s ns_Score e"
    and hi: "hi \<in> ns_Score ` set scores" "\<forall>e\<in>set scores. ns_Score e \<le>s hi"
    unfolding lo_def hi_def c by (rule scanMinMax_bounds)+
  show ?thesis
  proof (cases "lo = hi")
    case True
    with sc have "fst (NormalizeScore scores) =
        map (\<lambda>e. e\<lparr>ns_Score := int64_quo (0 + MaxNodeScore) 2\<rparr>) scores"
      by (simp add: NormalizeScore_def Let_def c del: scanMinMax.simps)
    with i j show ?thesis
      by (simp add: word_sle_eq)
  next
    case False
    from lo(1) hi(1) spread have sp: "(sint hi - sint lo) * sint MaxNodeScore < 2 ^ 63"
      by blast
    have vi: "sint (ns_Score (fst (NormalizeScore scores) ! i)) =
        ((sint (ns_Score (scores ! i)) - sint lo) * sint MaxNodeScore) div (sint hi - sint lo)"
      using i lo hi False sp by (rule NormalizeScore_value)
    have vj: "sint (ns_Score (fst (NormalizeScore scores) ! j)) =
        ((sint (ns_Score (scores ! j)) - sint lo) * sint MaxNodeScore) div (sint hi - sint lo)"
      using j lo hi False sp by (rule NormalizeScore_value)
    from lo(1) hi(2) have "sint lo \<le> sint hi"
      by (auto simp add: word_sle_eq)
    with False have pos: "0 < sint hi - sint lo"
      by (simp add: sint64_eq_iff)
    from le have "(sint (ns_Score (scores ! i)) - sint lo) * sint MaxNodeScore
        \<le> (sint (ns_Score (scores ! j)) - sint lo) * sint MaxNodeScore"
      by (simp add: word_sle_eq sint_MaxNodeScore)
    then show ?thesis
      unfolding word_sle_eq vi vj using pos by (rule zdiv_mono1)
  qed
qed

subsection \<open>A batch of equal scores\<close>

lemma scanMinMax_all_equal:
  "\<forall>e\<in>set xs. ns_Score e = c \<Longrightarrow> scanMinMax xs (c, c) = (c, c)"
  by (induction xs) (simp_all add: word_sless_alt)

text \<open>
  C8: for a non-empty batch whose raw scores are all equal (every batch of one entry is
  such a batch), NormalizeScore gives every entry the midpoint \<open>(0 + MaxNodeScore) / 2\<close>
  under truncating division, which is 50, and returns a success.
\<close>

theorem NormalizeScore_all_equal:
  assumes "scores \<noteq> []" and "\<forall>e\<in>set scores. ns_Score e = c"
  shows "NormalizeScore scores =
           (map (\<lambda>e. e\<lparr>ns_Score := int64_quo (0 + MaxNodeScore) 2\<rparr>) scores,
            NewStatus Success '''') \<and>
         int64_quo (0 + MaxNodeScore) 2 = 50 \<and>
         code (snd (NormalizeScore scores)) = Success"
proof -
  from assms(1) obtain x xs where c: "scores = x # xs"
    by (cases scores) auto
  with assms(2) have "ns_Score x = c"
    by simp
  with assms(2) have "scanMinMax scores (ns_Score x, ns_Score x) = (c, c)"
    by (simp only: scanMinMax_all_equal)
  then have "NormalizeScore scores =
           (map (\<lambda>e. e\<lparr>ns_Score := int64_quo (0 + MaxNodeScore) 2\<rparr>) scores,
            NewStatus Success '''')"
    by (simp add: NormalizeScore_def Let_def c del: scanMinMax.simps)
  moreover have "int64_quo (0 + MaxNodeScore) 2 = 50"
    by (simp add: int64_quo_def MaxNodeScore_def signed_divide_int_def)
  ultimately show ?thesis
    by (simp add: NewStatus_def)
qed

theorem NormalizeScore_all_equal_witness:
  "NormalizeScore [\<lparr>ns_Name = ''nodeA'', ns_Score = - 4096\<rparr>] =
     ([\<lparr>ns_Name = ''nodeA'', ns_Score = 50\<rparr>], NewStatus Success '''') \<and>
   NormalizeScore [\<lparr>ns_Name = ''nodeA'', ns_Score = 7\<rparr>, \<lparr>ns_Name = ''nodeB'', ns_Score = 7\<rparr>,
                   \<lparr>ns_Name = ''nodeC'', ns_Score = 7\<rparr>] =
     ([\<lparr>ns_Name = ''nodeA'', ns_Score = 50\<rparr>, \<lparr>ns_Name = ''nodeB'', ns_Score = 50\<rparr>,
       \<lparr>ns_Name = ''nodeC'', ns_Score = 50\<rparr>], NewStatus Success '''')"
proof -
  have one: "[\<lparr>ns_Name = ''nodeA'', ns_Score = - 4096\<rparr>] \<noteq> []"
    "\<forall>e\<in>set [\<lparr>ns_Name = ''nodeA'', ns_Score = - 4096\<rparr>]. ns_Score e = - 4096"
    by simp_all
  have three: "[\<lparr>ns_Name = ''nodeA'', ns_Score = 7\<rparr>, \<lparr>ns_Name = ''nodeB'', ns_Score = 7\<rparr>,
                   \<lparr>ns_Name = ''nodeC'', ns_Score = 7\<rparr>] \<noteq> []"
    "\<forall>e\<in>set [\<lparr>ns_Name = ''nodeA'', ns_Score = 7\<rparr>, \<lparr>ns_Name = ''nodeB'', ns_Score = 7\<rparr>,
                   \<lparr>ns_Name = ''nodeC'', ns_Score = (7::int64)\<rparr>]. ns_Score e = 7"
    by simp_all
  from NormalizeScore_all_equal [OF one] NormalizeScore_all_equal [OF three]
  show ?thesis
    by auto
qed

subsection \<open>A batch of scores that differ\<close>

text \<open>
  Let \<open>lo\<close> be the least and \<open>hi\<close> the greatest raw score of the batch, \<open>lo \<noteq> hi\<close>,
  and let \<open>(hi - lo) * MaxNodeScore\<close> fit into int64. Then every entry gets
  \<open>((raw - lo) * MaxNodeScore) / (hi - lo)\<close> in truncating 64-bit arithmetic, whose
  value is the quotient of the integers; it lies in \<open>[0, MaxNodeScore]\<close>, it is 0 for an
  entry with raw score \<open>lo\<close> and \<open>MaxNodeScore\<close> for one with raw score \<open>hi\<close>.
\<close>

theorem NormalizeScore_bounds:
  assumes "i < length scores"
    and "lo \<in> ns_Score ` set scores" and "\<forall>e\<in>set scores. lo \<le>s ns_Score e"
    and "hi \<in> ns_Score ` set scores" and "\<forall>e\<in>set scores. ns_Score e \<le>s hi"
    and "lo \<noteq> hi"
    and "(sint hi - sint lo) * sint MaxNodeScore < 2 ^ 63"
  shows "ns_Score (fst (NormalizeScore scores) ! i) =
           int64_quo ((ns_Score (scores ! i) - lo) * MaxNodeScore) (hi - lo) \<and>
         sint (ns_Score (fst (NormalizeScore scores) ! i)) =
           ((sint (ns_Score (scores ! i)) - sint lo) * sint MaxNodeScore)
             div (sint hi - sint lo) \<and>
         0 \<le>s ns_Score (fst (NormalizeScore scores) ! i) \<and>
         ns_Score (fst (NormalizeScore scores) ! i) \<le>s MaxNodeScore \<and>
         (ns_Score (scores ! i) = lo \<longrightarrow> ns_Score (fst (NormalizeScore scores) ! i) = 0) \<and>
         (ns_Score (scores ! i) = hi \<longrightarrow>
            ns_Score (fst (NormalizeScore scores) ! i) = MaxNodeScore)"
proof -
  let ?x = "ns_Score (scores ! i)"
  let ?r = "ns_Score (fst (NormalizeScore scores) ! i)"
  from assms(1) have ne: "scores \<noteq> []"
    by auto
  from assms(1) have mem: "scores ! i \<in> set scores"
    by simp
  have r: "?r = int64_quo ((?x - lo) * (MaxNodeScore - 0)) (hi - lo) + 0"
    using assms(1) by (simp add: NormalizeScore_spread [OF ne assms(2-6)])
  from mem assms(3,5) have lx: "sint lo \<le> sint ?x" and xh: "sint ?x \<le> sint hi"
    by (auto simp add: word_sle_eq)
  from lx xh assms(6) have lh: "sint lo < sint hi"
    by (simp add: sint64_eq_iff)
  have v: "sint ?r = ((sint ?x - sint lo) * sint MaxNodeScore) div (sint hi - sint lo)"
    using assms by (rule NormalizeScore_value)
  have lower: "0 \<le> sint ?r" and upper: "sint ?r \<le> 100"
    unfolding v sint_MaxNodeScore using lx xh lh by (rule normalized_range)+
  have atlo: "?r = 0" if "?x = lo"
    using that v by (simp add: sint64_eq_iff)
  have athi: "?r = MaxNodeScore" if "?x = hi"
  proof -
    have "(d * 100) div d = 100" if "0 < d" for d :: int
      using that by simp
    from this [of "sint hi - sint lo"] lh
    have "((sint hi - sint lo) * 100) div (sint hi - sint lo) = 100"
      by simp
    with that v show ?thesis
      by (simp add: sint64_eq_iff sint_MaxNodeScore)
  qed
  from r v lower upper atlo athi show ?thesis
    by (simp add: word_sle_eq sint_MaxNodeScore)
qed

theorem NormalizeScore_bounds_example:
  "map ns_Score (fst (NormalizeScore
       [\<lparr>ns_Name = ''nodeA'', ns_Score = - 4096\<rparr>,
        \<lparr>ns_Name = ''nodeB'', ns_Score = - 8192\<rparr>,
        \<lparr>ns_Name = ''nodeC'', ns_Score = - 5120\<rparr>])) = [100, 0, 75]"
proof -
  let ?scores = "[\<lparr>ns_Name = ''nodeA'', ns_Score = - 4096\<rparr>,
        \<lparr>ns_Name = ''nodeB'', ns_Score = - 8192\<rparr>,
        \<lparr>ns_Name = ''nodeC'', ns_Score = - 5120\<rparr>]"
  have lo: "- 8192 \<in> ns_Score ` set ?scores" "\<forall>e\<in>set ?scores. - 8192 \<le>s ns_Score e"
    and hi: "- 4096 \<in> ns_Score ` set ?scores" "\<forall>e\<in>set ?scores. ns_Score e \<le>s - 4096"
    and ne: "(- 8192 :: int64) \<noteq> - 4096"
    and sp: "(sint (- 4096 :: int64) - sint (- 8192 :: int64)) * sint MaxNodeScore < 2 ^ 63"
    by (simp_all add: word_sle_eq MaxNodeScore_def)
  have a: "sint (ns_Score (fst (NormalizeScore ?scores) ! 0)) = 100"
    using NormalizeScore_bounds [of 0 ?scores, OF _ lo hi ne sp]
    by (auto simp add: MaxNodeScore_def)
  have b: "sint (ns_Score (fst (NormalizeScore ?scores) ! 1)) = 0"
    using NormalizeScore_bounds [of 1 ?scores, OF _ lo hi ne sp]
    by (auto simp add: MaxNodeScore_def)
  have c: "sint (ns_Score (fst (NormalizeScore ?scores) ! 2)) = 75"
    using NormalizeScore_bounds [of 2 ?scores, OF _ lo hi ne sp]
    by (auto simp add: MaxNodeScore_def)
  have len: "length (fst (NormalizeScore ?scores)) = 3"
    by (simp add: NormalizeScore_def Let_def split: prod.split)
  then obtain r0 r1 r2 where rs: "fst (NormalizeScore ?scores) = [r0, r1, r2]"
    by (auto simp add: length_Suc_conv numeral_3_eq_3)
  from a b c show ?thesis
    unfolding rs by (simp add: sint64_eq_iff)
qed

text \<open>
  C2: for every non-empty batch whose raw scores are not all equal, every normalised
  score is to lie in \<open>[0, MaxNodeScore]\<close>, an entry with the least raw score is to get 0
  and one with the greatest \<open>MaxNodeScore\<close>. The comment on NormalizeScore says that it
  ensures the scores are within the valid range, which the function sets to
  \<open>validMin = 0\<close> and \<open>validMax = MaxNodeScore\<close>. The function does so as long as the
  product fits into int64, as shown above, but nothing guards the product against
  overflow. For the raw scores 0 and \<open>3 * 2 ^ 61\<close> the product of the second entry wraps
  around to \<open>- (2 ^ 63)\<close>: the entry with the greatest raw score gets \<open>- 1\<close>, below the
  valid range, and the status is a success.
\<close>

theorem NormalizeScore_overflow_out_of_range:
  "NormalizeScore
       [\<lparr>ns_Name = ''nodeA'', ns_Score = 0\<rparr>,
        \<lparr>ns_Name = ''nodeB'', ns_Score = 6917529027641081856\<rparr>]
     = ([\<lparr>ns_Name = ''nodeA'', ns_Score = 0\<rparr>, \<lparr>ns_Name = ''nodeB'', ns_Score = - 1\<rparr>],
        NewStatus Success '''') \<and>
   \<not> (0 :: int64) \<le>s - 1 \<and> (- 1 :: int64) \<noteq> MaxNodeScore"
  by (simp add: NormalizeScore_def Let_def word_sless_alt word_sle_eq int64_quo_def
      MaxNodeScore_def signed_divide_int_def)

subsection \<open>Shape and order\<close>

text \<open>
  C6, as stated, for every batch: an entry whose raw score is at most another's gets a
  normalised score that is at most the other's. This fails when the product overflows: for
  the raw scores 0, \<open>2 ^ 60\<close> and \<open>2 ^ 62\<close> the normalised scores are 0, 1 and 0.
\<close>

theorem NormalizeScore_order_counterexample:
  "map ns_Score (fst (NormalizeScore
       [\<lparr>ns_Name = ''nodeA'', ns_Score = 0\<rparr>,
        \<lparr>ns_Name = ''nodeB'', ns_Score = 1152921504606846976\<rparr>,
        \<lparr>ns_Name = ''nodeC'', ns_Score = 4611686018427387904\<rparr>])) = [0, 1, 0] \<and>
   (1152921504606846976 :: int64) \<le>s 4611686018427387904 \<and>
   \<not> (1 :: int64) \<le>s 0"
  by (simp add: NormalizeScore_def Let_def word_sless_alt word_sle_eq int64_quo_def
      MaxNodeScore_def signed_divide_int_def)

text \<open>
  C6, amended: NormalizeScore keeps the length of the batch, the order of its entries and
  every node name, and rewrites only the scores. When \<open>(a - b) * MaxNodeScore\<close> fits
  into int64 for all raw scores \<open>a\<close> and \<open>b\<close> of the batch, it is order preserving: an
  entry whose raw score is at most another's gets a normalised score at most the other's.
\<close>

theorem NormalizeScore_shape_and_order:
  "length (fst (NormalizeScore scores)) = length scores \<and>
   map ns_Name (fst (NormalizeScore scores)) = map ns_Name scores \<and>
   ((\<forall>a\<in>set scores. \<forall>b\<in>set scores.
        (sint (ns_Score a) - sint (ns_Score b)) * sint MaxNodeScore < 2 ^ 63) \<longrightarrow>
    (\<forall>i<length scores. \<forall>j<length scores.
        ns_Score (scores ! i) \<le>s ns_Score (scores ! j) \<longrightarrow>
        ns_Score (fst (NormalizeScore scores) ! i)
          \<le>s ns_Score (fst (NormalizeScore scores) ! j)))"
  using NormalizeScore_length NormalizeScore_names NormalizeScore_monotone by blast

theorem NormalizeScore_shape_and_order_witness:
  "length (fst (NormalizeScore
       [\<lparr>ns_Name = ''nodeA'', ns_Score = - 4096\<rparr>,
        \<lparr>ns_Name = ''nodeB'', ns_Score = - 8192\<rparr>,
        \<lparr>ns_Name = ''nodeC'', ns_Score = - 5120\<rparr>])) = 3 \<and>
   map ns_Name (fst (NormalizeScore
       [\<lparr>ns_Name = ''nodeA'', ns_Score = - 4096\<rparr>,
        \<lparr>ns_Name = ''nodeB'', ns_Score = - 8192\<rparr>,
        \<lparr>ns_Name = ''nodeC'', ns_Score = - 5120\<rparr>])) = [''nodeA'', ''nodeB'', ''nodeC''] \<and>
   ns_Score (fst (NormalizeScore
       [\<lparr>ns_Name = ''nodeA'', ns_Score = - 4096\<rparr>,
        \<lparr>ns_Name = ''nodeB'', ns_Score = - 8192\<rparr>,
        \<lparr>ns_Name = ''nodeC'', ns_Score = - 5120\<rparr>]) ! 1)
     \<le>s
   ns_Score (fst (NormalizeScore
       [\<lparr>ns_Name = ''nodeA'', ns_Score = - 4096\<rparr>,
        \<lparr>ns_Name = ''nodeB'', ns_Score = - 8192\<rparr>,
        \<lparr>ns_Name = ''nodeC'', ns_Score = - 5120\<rparr>]) ! 2)"
proof -
  let ?scores = "[\<lparr>ns_Name = ''nodeA'', ns_Score = - 4096\<rparr>,
        \<lparr>ns_Name = ''nodeB'', ns_Score = - 8192\<rparr>,
        \<lparr>ns_Name = ''nodeC'', ns_Score = - 5120\<rparr>]"
  note t = NormalizeScore_shape_and_order [of ?scores]
  have sp: "\<forall>a\<in>set ?scores. \<forall>b\<in>set ?scores.
      (sint (ns_Score a) - sint (ns_Score b)) * sint MaxNodeScore < 2 ^ 63"
    by (simp add: MaxNodeScore_def)
  have i: "(1::nat) < length ?scores" and j: "(2::nat) < length ?scores"
    and le: "ns_Score (?scores ! 1) \<le>s ns_Score (?scores ! 2)"
    by (simp_all add: word_sle_eq)
  from t sp i j le
  have "ns_Score (fst (NormalizeScore ?scores) ! 1) \<le>s ns_Score (fst (NormalizeScore ?scores) ! 2)"
    by blast
  with t show ?thesis
    by simp
qed

section \<open>New: the ranking mode\<close>

text \<open>
  C5, as stated: with a payload, construction fails exactly when the payload fails to
  deserialize or the deserialized mode is neither Least nor Most. \<open>New\<close> prints the
  error of \<^verbatim>\<open>json.Unmarshal\<close> and goes on with the mode the call has left in the structure.
  \<^verbatim>\<open>json.Unmarshal\<close> decodes as much as it can and reports the first value of a wrong
  type at the end: on the payload below it sets the mode to Least from the first member and
  returns an error for the second, and construction succeeds.
\<close>

theorem New_unmarshal_error_counterexample:
  \<open>snd ((\<lambda>raw args. (args\<lparr>Mode := ''Least''\<rparr>, Some ''json: cannot unmarshal number''))
          ''{"mode":"Least","mode":5}'' \<lparr>Mode = ''''\<rparr>) \<noteq> None \<and>
   New (\<lambda>raw args. (args\<lparr>Mode := ''Least''\<rparr>, Some ''json: cannot unmarshal number''))
       (Some (Unknown ''{"mode":"Least","mode":5}''))
       \<lparr>ListPods = (\<lambda>ns sel. Inr []), NodeMemory = (\<lambda>n. Inr 4096)\<rparr>
   = Inr \<lparr>handle = \<lparr>ListPods = (\<lambda>ns sel. Inr []), NodeMemory = (\<lambda>n. Inr 4096)\<rparr>,
          scoreMode = ''Least''\<rparr>\<close>
  by (simp add: New_def leastMode_def)

text \<open>
  C5, amended: construction with no payload succeeds with mode Least. With a payload,
  construction fails exactly when the mode that deserialization leaves in the structure
  (the empty string when nothing was decoded) is neither Least nor Most, whether or not
  deserialization reported an error; the failure is a configuration error naming that
  mode, so the mode Average fails. An instance that was created holds the handle given and
  the mode Least or Most.
\<close>

theorem New_outcome:
  "New unmarshal None h = Inr \<lparr>handle = h, scoreMode = leastMode\<rparr> \<and>
   (isl (New unmarshal (Some (Unknown raw)) h) \<longleftrightarrow>
      Mode (fst (unmarshal raw \<lparr>Mode = ''''\<rparr>)) \<noteq> leastMode \<and>
      Mode (fst (unmarshal raw \<lparr>Mode = ''''\<rparr>)) \<noteq> mostMode) \<and>
   (isl (New unmarshal (Some (Unknown raw)) h) \<longrightarrow>
      New unmarshal (Some (Unknown raw)) h =
        Inl (ConfigError (''invalid mode, got '' @ Mode (fst (unmarshal raw \<lparr>Mode = ''''\<rparr>))))) \<and>
   (\<not> isl (New unmarshal (Some (Unknown raw)) h) \<longrightarrow>
      New unmarshal (Some (Unknown raw)) h =
        Inr \<lparr>handle = h, scoreMode = Mode (fst (unmarshal raw \<lparr>Mode = ''''\<rparr>))\<rparr>) \<and>
   (Mode (fst (unmarshal raw \<lparr>Mode = ''''\<rparr>)) = ''Average'' \<longrightarrow>
      New unmarshal (Some (Unknown raw)) h = Inl (ConfigError ''invalid mode, got Average'')) \<and>
   (\<forall>cs. New unmarshal obj h = Inr cs \<longrightarrow>
      handle cs = h \<and> (scoreMode cs = leastMode \<or> scoreMode cs = mostMode))"
proof -
  have a: "New unmarshal None h = Inr \<lparr>handle = h, scoreMode = leastMode\<rparr>"
    by (simp add: New_def)
  have b: "New unmarshal (Some (Unknown raw)) h =
       (if Mode (fst (unmarshal raw \<lparr>Mode = ''''\<rparr>)) \<noteq> leastMode \<and>
           Mode (fst (unmarshal raw \<lparr>Mode = ''''\<rparr>)) \<noteq> mostMode
        then Inl (ConfigError (''invalid mode, got '' @ Mode (fst (unmarshal raw \<lparr>Mode = ''''\<rparr>))))
        else Inr \<lparr>handle = h, scoreMode = Mode (fst (unmarshal raw \<lparr>Mode = ''''\<rparr>))\<rparr>)"
    by (simp add: New_def Let_def split: prod.split)
  have c: "handle cs = h \<and> (scoreMode cs = leastMode \<or> scoreMode cs = mostMode)"
    if "New unmarshal obj h = Inr cs" for cs
  proof (cases obj)
    case None
    with that a show ?thesis by auto
  next
    case (Some o1)
    show ?thesis
    proof (cases o1)
      case (Unknown raw')
      with that Some show ?thesis
        by (auto simp add: New_def Let_def split: prod.splits if_splits)
    next
      case OtherObject
      with that Some show ?thesis
        by (simp add: New_def)
    qed
  qed
  have d: "''Average'' \<noteq> leastMode \<and> ''Average'' \<noteq> mostMode"
    by (simp add: leastMode_def mostMode_def)
  from a b c d show ?thesis
    by auto
qed

theorem New_outcome_witness:
  "New (\<lambda>raw args. (args\<lparr>Mode := ''Average''\<rparr>, None)) (Some (Unknown ''payload''))
     \<lparr>ListPods = (\<lambda>ns sel. Inr []), NodeMemory = (\<lambda>n. Inr 4096)\<rparr>
   = Inl (ConfigError ''invalid mode, got Average'') \<and>
   New (\<lambda>raw args. (args\<lparr>Mode := ''Most''\<rparr>, None)) (Some (Unknown ''payload''))
     \<lparr>ListPods = (\<lambda>ns sel. Inr []), NodeMemory = (\<lambda>n. Inr 4096)\<rparr>
   = Inr \<lparr>handle = \<lparr>ListPods = (\<lambda>ns sel. Inr []), NodeMemory = (\<lambda>n. Inr 4096)\<rparr>,
          scoreMode = ''Most''\<rparr>"
proof -
  let ?h = "\<lparr>ListPods = (\<lambda>ns sel. Inr []), NodeMemory = (\<lambda>n. Inr (4096::int64))\<rparr>
              :: Handle"
  let ?avg = "\<lambda>(raw::string) args. (args\<lparr>Mode := ''Average''\<rparr>, None :: string option)"
  let ?most = "\<lambda>(raw::string) args. (args\<lparr>Mode := ''Most''\<rparr>, None :: string option)"
  note t1 = New_outcome [of ?avg ?h "''payload''" None]
  note t2 = New_outcome [of ?most ?h "''payload''" None]
  have m: "Mode (fst (?avg ''payload'' \<lparr>Mode = ''''\<rparr>)) = ''Average''"
    by simp
  have n: "\<not> (Mode (fst (?most ''payload'' \<lparr>Mode = ''''\<rparr>)) \<noteq> leastMode \<and>
      Mode (fst (?most ''payload'' \<lparr>Mode = ''''\<rparr>)) \<noteq> mostMode)"
    by (simp add: mostMode_def)
  from t1 m have r1: "New ?avg (Some (Unknown ''payload'')) ?h
      = Inl (ConfigError ''invalid mode, got Average'')"
    by blast
  from t2 n have "New ?most (Some (Unknown ''payload'')) ?h =
        Inr \<lparr>handle = ?h, scoreMode = Mode (fst (?most ''payload'' \<lparr>Mode = ''''\<rparr>))\<rparr>"
    by blast
  then have r2: "New ?most (Some (Unknown ''payload'')) ?h = Inr \<lparr>handle = ?h, scoreMode = ''Most''\<rparr>"
    by simp
  from r1 r2 show ?thesis
    by simp
qed

end
